theory Spec2Isabelle
  imports Complex_Main
begin

section \<open>Schema layer (models.py)\<close>

text \<open>
  The pydantic models of \<^verbatim>\<open>models.py\<close>. Aspect and sentiment are Python strings
  (restricted by \<^verbatim>\<open>Literal\<close> at the response boundary); they stay strings here, since the
  analyzer writes them next to the free literals \<^verbatim>\<open>"other"\<close>, \<^verbatim>\<open>"neutral"\<close> and the
  validator compares them with \<^verbatim>\<open>"none"\<close>. Identifiers are Python integers.
\<close>

record review_insight =
  aspect :: string
  sentiment :: string
  evidence :: string
  rationale :: string

record review_result =
  rid :: int
  insights :: "review_insight list"

record batch_response =
  reviews :: "review_result list"

text \<open>One element of \<^verbatim>\<open>reviews_batch\<close>: the dictionary \<^verbatim>\<open>{"id": idx, "text": text}\<close>.\<close>

record batch_item =
  item_id :: int
  item_text :: string

section \<open>Exceptions\<close>

text \<open>
  Every raise of the source is a value. \<open>LibError\<close> carries the message of an exception
  raised inside a library call (the OpenAI client, scikit-learn, the JSON loader).
\<close>

datatype py_exn = ValueError | IndexError | KeyError | ZeroDivisionError | LibError string

section \<open>Batch analysis client (llm\_engine.py)\<close>

text \<open>
  The reply of \<^verbatim>\<open>client.beta.chat.completions.parse\<close>: a completion with its list of choices,
  each message carrying an optional refusal text and an optional parsed \<^verbatim>\<open>BatchResponse\<close>.
\<close>

record message =
  refusal :: "string option"
  parsed :: "batch_response option"

record completion =
  choices :: "message list"

text \<open>
  The remote model is a black box with hidden state: from its state and the user prompt it
  either raises or returns a completion, and moves to a new state. Two calls with the
  same prompt may answer differently.
\<close>

type_synonym 's llm = "'s \<Rightarrow> string \<Rightarrow> (py_exn + completion) \<times> 's"

text \<open>Decimal rendering of an integer, as an f-string does for \<^verbatim>\<open>{item['id']}\<close>.\<close>

definition digit_char :: "nat \<Rightarrow> char" where
  "digit_char d = char_of (48 + d)"

fun str_nat :: "nat \<Rightarrow> string" where
  "str_nat n = (if n < 10 then [digit_char n] else str_nat (n div 10) @ [digit_char (n mod 10)])"

definition str_int :: "int \<Rightarrow> string" where
  "str_int i = (if i < 0 then CHR ''-'' # str_nat (nat (- i)) else str_nat (nat i))"

definition newline :: string where
  "newline = [char_of (10::nat)]"

text \<open>The body of the prompt loop: one delimited envelope per review.\<close>

definition review_envelope :: "batch_item \<Rightarrow> string" where
  "review_envelope item =
     newline @ ''<<< START REVIEW ID: '' @ str_int (item_id item) @ '' >>>'' @ newline
     @ item_text item @ newline
     @ ''<<< END REVIEW ID: '' @ str_int (item_id item) @ '' >>>'' @ newline
     @ replicate 20 (CHR ''-'')"

definition build_user_content :: "batch_item list \<Rightarrow> string" where
  "build_user_content reviews_batch =
     foldl (\<lambda>user_content item. user_content @ review_envelope item)
       (''Here is the batch of reviews to analyze. Remember to treat each one independently:'' @ newline)
       reviews_batch"

text \<open>Python truthiness of \<^verbatim>\<open>message.refusal\<close>: \<^verbatim>\<open>None\<close> and the empty string are falsy.\<close>

definition truthy_str :: "string option \<Rightarrow> bool" where
  "truthy_str r = (case r of None \<Rightarrow> False | Some t \<Rightarrow> t \<noteq> [])"

text \<open>
  The statements inside \<^verbatim>\<open>try:\<close>. The call may raise; \<^verbatim>\<open>completion.choices[0]\<close>
  raises \<^verbatim>\<open>IndexError\<close> on an empty list; a refusal and a missing parse both return \<^verbatim>\<open>[]\<close>.
\<close>

definition analyze_try_body :: "py_exn + completion \<Rightarrow> py_exn + review_result list" where
  "analyze_try_body reply =
     (case reply of
        Inl e \<Rightarrow> Inl e
      | Inr c \<Rightarrow>
          (case choices c of
             [] \<Rightarrow> Inl IndexError
           | m # _ \<Rightarrow>
               if truthy_str (refusal m) then Inr []
               else (case parsed m of
                       Some p \<Rightarrow> Inr (reviews p)
                     | None \<Rightarrow> Inr [])))"

text \<open>
  \<^verbatim>\<open>analyze_review_batch\<close>: build the prompt, run the body, and let
  \<^verbatim>\<open>except Exception\<close> turn every raise into \<^verbatim>\<open>[]\<close>. The result keeps the type of a
  computation that may raise, so that callers have to treat the exceptional case.
\<close>

definition analyze_review_batch ::
  "'s llm \<Rightarrow> 's \<Rightarrow> batch_item list \<Rightarrow> (py_exn + review_result list) \<times> 's" where
  "analyze_review_batch client s reviews_batch =
     (let user_content = build_user_content reviews_batch;
          (reply, s') = client s user_content
      in (case analyze_try_body reply of
            Inl e \<Rightarrow> (Inr [], s')
          | Inr rs \<Rightarrow> (Inr rs, s')))"

text \<open>The value \<^verbatim>\<open>analyze_review_batch\<close> hands to its caller, as a total function.\<close>

definition reply_results :: "py_exn + completion \<Rightarrow> review_result list" where
  "reply_results reply = (case analyze_try_body reply of Inl e \<Rightarrow> [] | Inr rs \<Rightarrow> rs)"

section \<open>Batch orchestration loop (analyzer.py)\<close>

text \<open>
  \<^verbatim>\<open>str.lower\<close> on ASCII text: the letters \<^verbatim>\<open>A\<close>..\<^verbatim>\<open>Z\<close> move to \<^verbatim>\<open>a\<close>..\<^verbatim>\<open>z\<close>. A character
  stands for one code point; the model is that of ASCII text, other characters are left
  unchanged.
\<close>

definition lower_char :: "char \<Rightarrow> char" where
  "lower_char c =
     (let n = (of_char c :: nat) in if 65 \<le> n \<and> n \<le> 90 then char_of (n + 32) else c)"

definition lower :: "string \<Rightarrow> string" where
  "lower t = map lower_char t"

text \<open>The test of the "simple filtering" step: such a row is skipped with \<^verbatim>\<open>continue\<close>.\<close>

definition skip_text :: "string \<Rightarrow> bool" where
  "skip_text t = (length t < 5 \<or> lower t = ''nan'')"

text \<open>
  The loop over \<^verbatim>\<open>chunk_df.iterrows()\<close> that fills \<^verbatim>\<open>batch_input\<close>. A row is its index
  label and the text \<^verbatim>\<open>str(row[text_col])\<close>. (\<^verbatim>\<open>text_map\<close> is written and never read.)
\<close>

fun prepare_batch :: "(int \<times> string) list \<Rightarrow> batch_item list" where
  "prepare_batch [] = []"
| "prepare_batch ((idx, t) # rest) =
     (if skip_text t then prepare_batch rest
      else \<lparr>item_id = idx, item_text = t\<rparr> # prepare_batch rest)"

text \<open>
  The dictionary comprehension \<^verbatim>\<open>{res.id: res.insights for res in batch_results}\<close>: a later
  result with the same id replaces an earlier one.
\<close>

definition results_map :: "review_result list \<Rightarrow> (int \<rightharpoonup> review_insight list)" where
  "results_map batch_results =
     foldl (\<lambda>m res. m(rid res \<mapsto> insights res)) Map.empty batch_results"

text \<open>One dictionary appended to \<^verbatim>\<open>analyzed_data\<close>, later a row of the output table.\<close>

record analyzed_row =
  original_text :: string
  row_aspect :: string
  row_sentiment :: string
  row_evidence :: string
  row_rationale :: string

definition placeholder_row :: "string \<Rightarrow> analyzed_row" where
  "placeholder_row t =
     \<lparr>original_text = t, row_aspect = ''other'', row_sentiment = ''neutral'',
      row_evidence = [], row_rationale = ''No insight detected (or skipped by LLM)''\<rparr>"

definition insight_row :: "string \<Rightarrow> review_insight \<Rightarrow> analyzed_row" where
  "insight_row t insight =
     \<lparr>original_text = t, row_aspect = aspect insight, row_sentiment = sentiment insight,
      row_evidence = evidence insight, row_rationale = rationale insight\<rparr>"

text \<open>
  The body of \<^verbatim>\<open>for item in batch_input\<close>: \<^verbatim>\<open>results_map.get(original_id, [])\<close>, then the
  placeholder when the list is empty and one row per insight otherwise.
\<close>

definition rows_for_item :: "(int \<rightharpoonup> review_insight list) \<Rightarrow> batch_item \<Rightarrow> analyzed_row list" where
  "rows_for_item rm item =
     (let insights = (case rm (item_id item) of None \<Rightarrow> [] | Some v \<Rightarrow> v)
      in if insights = [] then [placeholder_row (item_text item)]
         else map (insight_row (item_text item)) insights)"

text \<open>Step 3 of the loop body: the rows one batch adds to \<^verbatim>\<open>analyzed_data\<close>.\<close>

definition map_results_back :: "review_result list \<Rightarrow> batch_item list \<Rightarrow> analyzed_row list" where
  "map_results_back batch_results batch_input =
     concat (map (rows_for_item (results_map batch_results)) batch_input)"

text \<open>
  \<^verbatim>\<open>range(0, stop, step)\<close> as the list it iterates over: a zero step raises
  \<^verbatim>\<open>ValueError\<close>, a negative one gives the empty range.
\<close>

definition py_range :: "nat \<Rightarrow> int \<Rightarrow> py_exn + nat list" where
  "py_range stop step =
     (if step = 0 then Inl ValueError
      else if step < 0 then Inr []
      else Inr (map (\<lambda>k. k * nat step) [0 ..< (stop + nat step - 1) div nat step]))"

text \<open>
  \<^verbatim>\<open>df.iloc[i:end_idx]\<close> with the rows' index labels; \<^verbatim>\<open>pd.read_excel\<close> labels the rows
  \<open>0, 1, 2, \<dots>\<close>, so a row's label is its position in the table.
\<close>

definition iloc :: "string list \<Rightarrow> nat \<Rightarrow> nat \<Rightarrow> (int \<times> string) list" where
  "iloc df i end_idx = zip (map int [i ..< end_idx]) (take (end_idx - i) (drop i df))"

text \<open>
  What the loop carries from one batch to the next: the state of the remote model, the
  calls made so far (the batch sent and the results received; kept to speak about
  what was sent) and \<^verbatim>\<open>analyzed_data\<close>.
\<close>

record 's run_state =
  llm_state :: 's
  call_log :: "(batch_item list \<times> review_result list) list"
  analyzed_data :: "analyzed_row list"

text \<open>
  The batch processing loop over the indices of \<^verbatim>\<open>range(0, total_rows, batch_size)\<close>. An
  empty batch is skipped without a call; an exception of the client would leave the loop.
\<close>

fun batch_loop ::
  "'s llm \<Rightarrow> string list \<Rightarrow> nat \<Rightarrow> nat list \<Rightarrow> 's run_state \<Rightarrow> py_exn + 's run_state" where
  "batch_loop client df batch_size [] st = Inr st"
| "batch_loop client df batch_size (i # rest) st =
     (let total_rows = length df;
          end_idx = min (i + batch_size) total_rows;
          chunk_df = iloc df i end_idx;
          batch_input = prepare_batch chunk_df
      in if batch_input = [] then batch_loop client df batch_size rest st
         else (case analyze_review_batch client (llm_state st) batch_input of
                 (Inl e, s') \<Rightarrow> Inl e
               | (Inr batch_results, s') \<Rightarrow>
                   batch_loop client df batch_size rest
                     (st\<lparr>llm_state := s',
                         call_log := call_log st @ [(batch_input, batch_results)],
                         analyzed_data := analyzed_data st
                            @ map_results_back batch_results batch_input\<rparr>)))"

text \<open>
  \<^verbatim>\<open>process_excel_file\<close> after the column has been selected: \<open>df\<close> is the text column, each
  cell already passed through \<^verbatim>\<open>str\<close>. The result is the final state, whose
  \<open>analyzed_data\<close> is the returned table.
\<close>

definition process_excel_file ::
  "'s llm \<Rightarrow> 's \<Rightarrow> string list \<Rightarrow> int \<Rightarrow> py_exn + 's run_state" where
  "process_excel_file client s df batch_size =
     (case py_range (length df) batch_size of
        Inl e \<Rightarrow> Inl e
      | Inr idxs \<Rightarrow>
          batch_loop client df (nat batch_size) idxs
            \<lparr>llm_state = s, call_log = [], analyzed_data = []\<rparr>)"

text \<open>The table rows in the order the loop visits them, and the rows it keeps.\<close>

definition table_rows :: "string list \<Rightarrow> (int \<times> string) list" where
  "table_rows df = iloc df 0 (length df)"

text \<open>
  Reading a final state: the items sent over all calls, in call order, and the rows of
  the table grouped by the item they were emitted for.
\<close>

definition sent_items :: "'s run_state \<Rightarrow> batch_item list" where
  "sent_items st = concat (map fst (call_log st))"

definition row_blocks :: "'s run_state \<Rightarrow> analyzed_row list list" where
  "row_blocks st =
     concat (map (\<lambda>(b, rs). map (rows_for_item (results_map rs)) b) (call_log st))"

definition block_of_item :: "analyzed_row list \<Rightarrow> batch_item \<Rightarrow> bool" where
  "block_of_item block item =
     (block \<noteq> [] \<and> list_all (\<lambda>r. original_text r = item_text item) block)"

section \<open>Dual-run consistency checker (app.py)\<close>

text \<open>
  The column \<^verbatim>\<open>verification_status\<close> that \<^verbatim>\<open>compare_and_merge_runs\<close> adds to the first
  run: \<^verbatim>\<open>'Pending'\<close>, the "Verified" mark, or the "Mismatch" mark with the second run's aspect
  and sentiment.
\<close>

datatype verification_status = Pending | Verified | Mismatch string string

text \<open>The test \<^verbatim>\<open>r1['aspect'] == r2['aspect'] and r1['sentiment'] == r2['sentiment']\<close>.\<close>

definition same_label :: "analyzed_row \<Rightarrow> analyzed_row \<Rightarrow> bool" where
  "same_label r1 r2 = (row_aspect r1 = row_aspect r2 \<and> row_sentiment r1 = row_sentiment r2)"

text \<open>
  The loop \<^verbatim>\<open>for i in range(total)\<close> with its \<^verbatim>\<open>break\<close> at the end of the second run,
  carrying the counter and the status column.
\<close>

fun compare_loop ::
  "analyzed_row list \<Rightarrow> analyzed_row list \<Rightarrow> nat list \<Rightarrow> nat \<times> verification_status list
     \<Rightarrow> nat \<times> verification_status list" where
  "compare_loop df1 df2 [] (consistent, status) = (consistent, status)"
| "compare_loop df1 df2 (i # rest) (consistent, status) =
     (if i \<ge> length df2 then (consistent, status)
      else (let r1 = df1 ! i; r2 = df2 ! i
            in if same_label r1 r2
               then compare_loop df1 df2 rest (consistent + 1, status[i := Verified])
               else compare_loop df1 df2 rest
                      (consistent, status[i := Mismatch (row_aspect r2) (row_sentiment r2)])))"

text \<open>
  \<^verbatim>\<open>(consistent / total * 100) if total > 0 else 0\<close>. Python computes it in floating point;
  here it is the exact rational number.
\<close>

definition run_score :: "nat \<Rightarrow> nat \<Rightarrow> rat" where
  "run_score consistent total_n =
     (if total_n > 0 then of_nat consistent / of_nat total_n * 100 else 0)"

text \<open>
  \<^verbatim>\<open>compare_and_merge_runs\<close>: \<^verbatim>\<open>total\<close> is the length of the first run; the result is the
  first run with its status column, and the score.
\<close>

definition compare_and_merge_runs ::
  "analyzed_row list \<Rightarrow> analyzed_row list \<Rightarrow> (analyzed_row \<times> verification_status) list \<times> rat" where
  "compare_and_merge_runs df1 df2 =
     (let total_n = length df1;
          (consistent, status) = compare_loop df1 df2 [0 ..< total_n] (0, replicate total_n Pending);
          score = run_score consistent total_n
      in (zip df1 status, score))"

text \<open>
  In the words of the specification: the number of index-aligned pairs, up to the length
  of the shorter run, whose aspect and sentiment both match; and the status a row of the
  first run is expected to carry.
\<close>

definition matching_pairs :: "analyzed_row list \<Rightarrow> analyzed_row list \<Rightarrow> nat" where
  "matching_pairs df1 df2 =
     length (filter (\<lambda>i. same_label (df1 ! i) (df2 ! i)) [0 ..< min (length df1) (length df2)])"

definition expected_status :: "analyzed_row list \<Rightarrow> analyzed_row list \<Rightarrow> nat \<Rightarrow> verification_status" where
  "expected_status df1 df2 i =
     (if i \<ge> length df2 then Pending
      else if same_label (df1 ! i) (df2 ! i) then Verified
      else Mismatch (row_aspect (df2 ! i)) (row_sentiment (df2 ! i)))"

section \<open>Complexity tags (validator.py)\<close>

text \<open>
  The two regular expressions have the shape \<^verbatim>\<open>\b(w1|w2|...)\b\<close>. \<^verbatim>\<open>re.search\<close> succeeds
  iff at some position one alternative occurs with a word boundary on both sides. A word
  character is a letter, a digit or the underscore (of ASCII text, as for \<open>lower\<close>); a
  boundary lies between a word character and a non-word character or an end of the text.
\<close>

definition is_word_char :: "char \<Rightarrow> bool" where
  "is_word_char c =
     (let n = (of_char c :: nat)
      in (48 \<le> n \<and> n \<le> 57) \<or> (65 \<le> n \<and> n \<le> 90) \<or> (97 \<le> n \<and> n \<le> 122) \<or> n = 95)"

definition word_boundary :: "string \<Rightarrow> nat \<Rightarrow> bool" where
  "word_boundary s i =
     ((0 < i \<and> i \<le> length s \<and> is_word_char (s ! (i - 1)))
        \<noteq> (i < length s \<and> is_word_char (s ! i)))"

definition match_at :: "string list \<Rightarrow> string \<Rightarrow> nat \<Rightarrow> bool" where
  "match_at alts s i =
     (word_boundary s i
      \<and> list_ex (\<lambda>w. take (length w) (drop i s) = w \<and> word_boundary s (i + length w)) alts)"

definition re_search_words :: "string list \<Rightarrow> string \<Rightarrow> bool" where
  "re_search_words alts s = list_ex (match_at alts s) [0 ..< Suc (length s)]"

text \<open>The alternatives of the negation and of the contrast pattern.\<close>

definition negation_words :: "string list" where
  "negation_words = [''not'', ''no'', ''never'', ''n'' @ [CHR 0x27] @ ''t'', ''cannot'']"

definition contrast_words :: "string list" where
  "contrast_words = [''but'', ''however'', ''although'', ''though'', ''while'']"

text \<open>\<^verbatim>\<open>detect_complexity_tags\<close>, statement by statement.\<close>

definition detect_complexity_tags :: "string \<Rightarrow> string list" where
  "detect_complexity_tags text =
     (let tags = [];
          text_lower = lower text;
          tags = (if re_search_words negation_words text_lower then tags @ [''Negation''] else tags);
          tags = (if re_search_words contrast_words text_lower
                  then tags @ [''Mixed/Contrast''] else tags);
          tags = (if length text > 150 then tags @ [''Long Text''] else tags);
          tags = (if tags = [] then tags @ [''Simple''] else tags)
      in tags)"


section \<open>Validation harness (validator.py)\<close>

text \<open>
  One record of the gold standard file. Each key may be missing: the harness reads it
  with \<^verbatim>\<open>item.get(key, default)\<close>.
\<close>

record gold_item =
  g_text :: "string option"
  g_label_aspect :: "string option"
  g_label_sentiment :: "string option"

text \<open>An entry of \<^verbatim>\<open>ground_truth_map\<close>.\<close>

record truth =
  t_aspect :: string
  t_sentiment :: string
  t_text :: string
  t_tags :: "string list"

text \<open>\<^verbatim>\<open>d.get(key, default)\<close>, applied to the result of the lookup.\<close>

definition dict_get :: "'a option \<Rightarrow> 'a \<Rightarrow> 'a" where
  "dict_get v d = (case v of None \<Rightarrow> d | Some x \<Rightarrow> x)"

text \<open>The constant of \<^verbatim>\<open>config.py\<close>.\<close>

definition BATCH_SIZE :: int where
  "BATCH_SIZE = 4"

text \<open>
  Step 1, the loop over \<^verbatim>\<open>enumerate(gold_data)\<close>: it fills \<^verbatim>\<open>ground_truth_map\<close> and
  \<^verbatim>\<open>batch_input\<close>, the position of a sample being its id.
\<close>

fun prepare_data ::
  "(nat \<times> gold_item) list \<Rightarrow> (nat \<rightharpoonup> truth) \<times> batch_item list
     \<Rightarrow> (nat \<rightharpoonup> truth) \<times> batch_item list" where
  "prepare_data [] acc = acc"
| "prepare_data ((idx, item) # rest) (ground_truth_map, batch_input) =
     (let text = dict_get (g_text item) []
      in prepare_data rest
           (ground_truth_map(idx \<mapsto>
              \<lparr>t_aspect = dict_get (g_label_aspect item) ''other'',
               t_sentiment = dict_get (g_label_sentiment item) ''neutral'',
               t_text = text,
               t_tags = detect_complexity_tags text\<rparr>),
            batch_input @ [\<lparr>item_id = int idx, item_text = text\<rparr>]))"

text \<open>
  \<^verbatim>\<open>_get_predictions\<close>: for each start index of \<^verbatim>\<open>range(0, len(batch_input), BATCH_SIZE)\<close>
  the slice is sent and every result stored under its id.
\<close>

fun predictions_loop ::
  "'s llm \<Rightarrow> batch_item list \<Rightarrow> nat list \<Rightarrow> (int \<rightharpoonup> review_insight list) \<Rightarrow> 's
     \<Rightarrow> (py_exn + (int \<rightharpoonup> review_insight list)) \<times> 's" where
  "predictions_loop client batch_input [] predictions_map s = (Inr predictions_map, s)"
| "predictions_loop client batch_input (i # rest) predictions_map s =
     (let chunk = take (nat BATCH_SIZE) (drop i batch_input)
      in (case analyze_review_batch client s chunk of
            (Inl e, s') \<Rightarrow> (Inl e, s')
          | (Inr batch_results, s') \<Rightarrow>
              predictions_loop client batch_input rest
                (foldl (\<lambda>m res. m(rid res \<mapsto> insights res)) predictions_map batch_results) s'))"

definition get_predictions ::
  "'s llm \<Rightarrow> 's \<Rightarrow> batch_item list \<Rightarrow> (py_exn + (int \<rightharpoonup> review_insight list)) \<times> 's" where
  "get_predictions client s batch_input =
     (case py_range (length batch_input) BATCH_SIZE of
        Inl e \<Rightarrow> (Inl e, s)
      | Inr idxs \<Rightarrow> predictions_loop client batch_input idxs Map.empty s)"

text \<open>
  \<^verbatim>\<open>(p[0].aspect, p[0].sentiment) if p else ("none", "none")\<close>.
\<close>

definition first_pair :: "review_insight list \<Rightarrow> string \<times> string" where
  "first_pair p = (case p of [] \<Rightarrow> (''none'', ''none'') | x # _ \<Rightarrow> (aspect x, sentiment x))"

text \<open>The consistency loop over \<^verbatim>\<open>range(total_checks)\<close>, carrying \<^verbatim>\<open>consistent_count\<close>.\<close>

fun consistency_loop ::
  "(int \<rightharpoonup> review_insight list) \<Rightarrow> (int \<rightharpoonup> review_insight list) \<Rightarrow> nat list \<Rightarrow> nat \<Rightarrow> nat" where
  "consistency_loop predictions_pass_1 predictions_pass_2 [] consistent_count = consistent_count"
| "consistency_loop predictions_pass_1 predictions_pass_2 (idx # rest) consistent_count =
     (let p1 = dict_get (predictions_pass_1 (int idx)) [];
          p2 = dict_get (predictions_pass_2 (int idx)) [];
          res1 = first_pair p1;
          res2 = first_pair p2
      in consistency_loop predictions_pass_1 predictions_pass_2 rest
           (if res1 = res2 then consistent_count + 1 else consistent_count))"

text \<open>
  \<^verbatim>\<open>round((consistent_count / total_checks) * 100, 2) if total_checks > 0 else 0.0\<close>. The
  built-in \<^verbatim>\<open>round(x, 2)\<close> is a parameter; the division is that of exact rationals.
\<close>

definition consistency_of ::
  "(rat \<Rightarrow> rat) \<Rightarrow> (int \<rightharpoonup> review_insight list) \<Rightarrow> (int \<rightharpoonup> review_insight list) \<Rightarrow> nat \<Rightarrow> rat" where
  "consistency_of round2 predictions_pass_1 predictions_pass_2 total_checks =
     (let consistent_count =
            consistency_loop predictions_pass_1 predictions_pass_2 [0 ..< total_checks] 0
      in if total_checks > 0
         then round2 (of_nat consistent_count / of_nat total_checks * 100) else 0)"

text \<open>The two status marks of a detail line, and the line itself.\<close>

datatype match_status = StatusMatch | StatusMismatch

record detail =
  d_text :: string
  d_tags :: string
  d_true :: string
  d_pred :: string
  d_status :: match_status

text \<open>What step 3 accumulates; \<^verbatim>\<open>edge_case_stats\<close> keeps per tag its total and correct count, in insertion order.\<close>

record compare_state =
  y_true_aspect :: "string list"
  y_pred_aspect :: "string list"
  details :: "detail list"
  edge_case_stats :: "(string \<times> nat \<times> nat) list"

text \<open>\<^verbatim>\<open>", ".join(tags)\<close>.\<close>

fun join_tags :: "string list \<Rightarrow> string" where
  "join_tags [] = []"
| "join_tags [t] = t"
| "join_tags (t # ts) = t @ '', '' @ join_tags ts"

text \<open>
  The body of \<^verbatim>\<open>for tag in tags\<close>: create the entry when the tag is new, add one to
  its total, and one to its correct count when the prediction is correct.
\<close>

definition bump_tag :: "bool \<Rightarrow> (string \<times> nat \<times> nat) list \<Rightarrow> string \<Rightarrow> (string \<times> nat \<times> nat) list" where
  "bump_tag is_correct stats tag =
     (let stats = (if tag \<notin> fst ` set stats then stats @ [(tag, 0, 0)] else stats)
      in map (\<lambda>(k, total_n, correct).
                if k = tag then (k, total_n + 1, if is_correct then correct + 1 else correct)
                else (k, total_n, correct)) stats)"

text \<open>
  Step 3, the loop over \<^verbatim>\<open>range(len(gold_data))\<close>. \<^verbatim>\<open>ground_truth_map[idx]\<close> raises
  \<^verbatim>\<open>KeyError\<close> on a missing key.
\<close>

fun compare_lines ::
  "(nat \<rightharpoonup> truth) \<Rightarrow> (int \<rightharpoonup> review_insight list) \<Rightarrow> nat list \<Rightarrow> compare_state
     \<Rightarrow> py_exn + compare_state" where
  "compare_lines ground_truth_map predictions_pass_1 [] st = Inr st"
| "compare_lines ground_truth_map predictions_pass_1 (idx # rest) st =
     (case ground_truth_map idx of
        None \<Rightarrow> Inl KeyError
      | Some truth \<Rightarrow>
          (let tags = t_tags truth;
               predicted_insights = dict_get (predictions_pass_1 (int idx)) [];
               (pred_aspect, pred_sentiment) =
                  (case predicted_insights of
                     [] \<Rightarrow> (''other'', ''neutral'')
                   | x # _ \<Rightarrow> (aspect x, sentiment x));
               is_correct = (t_aspect truth = pred_aspect \<and> t_sentiment truth = pred_sentiment)
           in compare_lines ground_truth_map predictions_pass_1 rest
                \<lparr>y_true_aspect = y_true_aspect st @ [t_aspect truth],
                 y_pred_aspect = y_pred_aspect st @ [pred_aspect],
                 details = details st @
                   [\<lparr>d_text = take 50 (t_text truth) @ ''...'',
                     d_tags = join_tags tags,
                     d_true = t_aspect truth @ '' | '' @ t_sentiment truth,
                     d_pred = pred_aspect @ '' | '' @ pred_sentiment,
                     d_status = (if is_correct then StatusMatch else StatusMismatch)\<rparr>],
                 edge_case_stats = foldl (bump_tag is_correct) (edge_case_stats st) tags\<rparr>))"

text \<open>
  The library functions the harness calls, as parameters: Python's \<^verbatim>\<open>round(x, 2)\<close> and the
  three scikit-learn functions, each of which either raises (\<open>Inl\<close> the text of the
  exception) or returns. \<open>'r\<close> is the type of one entry of the classification report.
\<close>

record 'r libs =
  round2 :: "rat \<Rightarrow> rat"
  accuracy_score :: "string list \<Rightarrow> string list \<Rightarrow> string + rat"
  precision_recall_fscore_support :: "string list \<Rightarrow> string list \<Rightarrow> string + rat \<times> rat \<times> rat"
  classification_report :: "string list \<Rightarrow> string list \<Rightarrow> string + (string \<times> 'r) list"

text \<open>The metrics dictionary and its edge-case entries.\<close>

record edge_stat =
  e_type :: string
  e_total :: nat
  e_accuracy :: rat

record 'r metrics =
  m_accuracy :: rat
  m_precision :: rat
  m_recall :: rat
  m_f1 :: rat
  m_aspect_breakdown :: "(string \<times> 'r) list"
  m_edge_case_stats :: "edge_stat list"
  m_details :: "detail list"
  m_consistency :: "rat option"

text \<open>What the harness returns: the dictionary with the single key \<^verbatim>\<open>error\<close>, or the metrics.\<close>

datatype 'r validation_result = ErrorResult string | MetricsResult "'r metrics"

text \<open>
  Step 4, the statements inside \<^verbatim>\<open>try:\<close>. An exception of a library call leaves the
  block with its text.
\<close>

definition metrics_try_body ::
  "'r libs \<Rightarrow> compare_state \<Rightarrow> rat option \<Rightarrow> string + 'r metrics" where
  "metrics_try_body lib st consistency_score =
     (case accuracy_score lib (y_true_aspect st) (y_pred_aspect st) of
        Inl msg \<Rightarrow> Inl msg
      | Inr acc \<Rightarrow>
     (case precision_recall_fscore_support lib (y_true_aspect st) (y_pred_aspect st) of
        Inl msg \<Rightarrow> Inl msg
      | Inr (precision, recall, f1) \<Rightarrow>
     (case classification_report lib (y_true_aspect st) (y_pred_aspect st) of
        Inl msg \<Rightarrow> Inl msg
      | Inr report_dict \<Rightarrow>
          (let aspect_breakdown =
                 filter (\<lambda>(k, v). k \<notin> {''accuracy'', ''macro avg'', ''weighted avg''}) report_dict;
               final_edge_stats =
                 map (\<lambda>(tag, total_n, correct).
                        \<lparr>e_type = tag, e_total = total_n,
                         e_accuracy = round2 lib
                           (if total_n > 0 then of_nat correct / of_nat total_n * 100 else 0)\<rparr>)
                     (edge_case_stats st)
           in Inr \<lparr>m_accuracy = round2 lib (acc * 100),
                   m_precision = round2 lib (precision * 100),
                   m_recall = round2 lib (recall * 100),
                   m_f1 = round2 lib (f1 * 100),
                   m_aspect_breakdown = aspect_breakdown,
                   m_edge_case_stats = final_edge_stats,
                   m_details = details st,
                   m_consistency = consistency_score\<rparr>))))"

text \<open>The block under \<^verbatim>\<open>if dual_mode:\<close>; without dual mode the score stays \<^verbatim>\<open>None\<close>.\<close>

definition second_pass ::
  "'r libs \<Rightarrow> 's llm \<Rightarrow> 's \<Rightarrow> batch_item list \<Rightarrow> (int \<rightharpoonup> review_insight list) \<Rightarrow> nat \<Rightarrow> bool
     \<Rightarrow> (py_exn + rat option) \<times> 's" where
  "second_pass lib client s batch_input predictions_pass_1 total_checks dual_mode =
     (if dual_mode
      then (case get_predictions client s batch_input of
              (Inl e, s') \<Rightarrow> (Inl e, s')
            | (Inr predictions_pass_2, s') \<Rightarrow>
                (Inr (Some (consistency_of (round2 lib) predictions_pass_1 predictions_pass_2
                              total_checks)), s'))
      else (Inr None, s))"

text \<open>
  \<^verbatim>\<open>run_gold_standard_validation\<close>. \<open>loaded\<close> is the outcome of opening and parsing the
  file: the text of the exception, or the list of samples. \<^verbatim>\<open>except Exception\<close> around step
  4 turns a raise into the error dictionary.
\<close>

definition run_gold_standard_validation ::
  "'r libs \<Rightarrow> 's llm \<Rightarrow> 's \<Rightarrow> string + gold_item list \<Rightarrow> bool
     \<Rightarrow> (py_exn + 'r validation_result) \<times> 's" where
  "run_gold_standard_validation lib client s loaded dual_mode =
     (case loaded of
        Inl msg \<Rightarrow> (Inr (ErrorResult (''Failed to load JSON: '' @ msg)), s)
      | Inr gold_data \<Rightarrow>
          (let (ground_truth_map, batch_input) =
                  prepare_data (enumerate 0 gold_data) (Map.empty, [])
           in (case get_predictions client s batch_input of
                 (Inl e, s1) \<Rightarrow> (Inl e, s1)
               | (Inr predictions_pass_1, s1) \<Rightarrow>
           (case second_pass lib client s1 batch_input predictions_pass_1 (length gold_data)
                   dual_mode of
                 (Inl e, s2) \<Rightarrow> (Inl e, s2)
               | (Inr consistency_score, s2) \<Rightarrow>
           (case compare_lines ground_truth_map predictions_pass_1 [0 ..< length gold_data]
                   \<lparr>y_true_aspect = [], y_pred_aspect = [], details = [],
                    edge_case_stats = []\<rparr> of
                 Inl e \<Rightarrow> (Inl e, s2)
               | Inr st \<Rightarrow>
                   (case metrics_try_body lib st consistency_score of
                      Inl msg \<Rightarrow> (Inr (ErrorResult msg), s2)
                    | Inr metrics \<Rightarrow> (Inr (MetricsResult metrics), s2)))))))"

text \<open>
  In the words of the specification: the number of gold samples, by position, whose
  first-insight pairs agree between the two passes; the batch the harness sends; the
  state step 3 starts from; and the dictionary returned for an outcome of step 4.
\<close>

definition agreeing_samples ::
  "(int \<rightharpoonup> review_insight list) \<Rightarrow> (int \<rightharpoonup> review_insight list) \<Rightarrow> nat \<Rightarrow> nat" where
  "agreeing_samples p1 p2 n =
     length (filter (\<lambda>idx. first_pair (dict_get (p1 (int idx)) [])
                          = first_pair (dict_get (p2 (int idx)) [])) [0 ..< n])"

definition gold_batch_input :: "gold_item list \<Rightarrow> batch_item list" where
  "gold_batch_input gold_data =
     map (\<lambda>(idx, item). \<lparr>item_id = int idx, item_text = dict_get (g_text item) []\<rparr>)
       (enumerate 0 gold_data)"

definition empty_compare_state :: compare_state where
  "empty_compare_state =
     \<lparr>y_true_aspect = [], y_pred_aspect = [], details = [], edge_case_stats = []\<rparr>"

definition result_of :: "string + 'r metrics \<Rightarrow> 'r validation_result" where
  "result_of r = (case r of Inl msg \<Rightarrow> ErrorResult msg | Inr metrics \<Rightarrow> MetricsResult metrics)"

section \<open>Sample inputs\<close>

text \<open>
  A scripted model for concrete runs: its state counts the calls; the first four calls
  fail in the four possible ways, later calls answer for ids 0 and 7.
\<close>

definition demo_insight :: review_insight where
  "demo_insight = \<lparr>aspect = ''service'', sentiment = ''negative'',
                   evidence = ''Terrible support'', rationale = ''complaint''\<rparr>"

definition demo_llm :: "nat llm" where
  "demo_llm s prompt =
     (if s = 0 then (Inl (LibError ''timeout''), Suc s)
      else if s = 1 then (Inr \<lparr>choices = [\<lparr>refusal = Some ''no'', parsed = None\<rparr>]\<rparr>, Suc s)
      else if s = 2 then (Inr \<lparr>choices = [\<lparr>refusal = None, parsed = None\<rparr>]\<rparr>, Suc s)
      else if s = 3 then (Inr \<lparr>choices = []\<rparr>, Suc s)
      else (Inr \<lparr>choices = [\<lparr>refusal = None,
                 parsed = Some \<lparr>reviews = [\<lparr>rid = 1, insights = [demo_insight]\<rparr>,
                                           \<lparr>rid = 7, insights = [demo_insight]\<rparr>]\<rparr>\<rparr>]\<rparr>, Suc s))"

definition demo_df :: "string list" where
  "demo_df = [''Great delivery, but packaging was damaged'', ''Terrible support'', ''nan'']"

definition demo_final :: "nat run_state" where
  "demo_final =
     \<lparr>llm_state = 5,
      call_log =
        [([\<lparr>item_id = 0, item_text = ''Great delivery, but packaging was damaged''\<rparr>,
           \<lparr>item_id = 1, item_text = ''Terrible support''\<rparr>],
          [\<lparr>rid = 1, insights = [demo_insight]\<rparr>, \<lparr>rid = 7, insights = [demo_insight]\<rparr>])],
      analyzed_data =
        [placeholder_row ''Great delivery, but packaging was damaged'',
         insight_row ''Terrible support'' demo_insight]\<rparr>"

definition row_a :: analyzed_row where
  "row_a = insight_row ''Terrible support'' demo_insight"

definition row_b :: analyzed_row where
  "row_b = placeholder_row ''Terrible support''"

definition five_rows :: "analyzed_row list" where
  "five_rows = [row_a, row_b, row_a, row_a, row_b]"


definition demo_round2 :: "rat \<Rightarrow> rat" where
  "demo_round2 x = of_int \<lfloor>x * 100 + 1 / 2\<rfloor> / 100"

definition demo_lib :: "nat libs" where
  "demo_lib =
     \<lparr>round2 = demo_round2,
      accuracy_score = (\<lambda>yt yp. if yt = [] then Inl ''empty label set''
         else Inr (of_nat (length (filter (\<lambda>(t, p). t = p) (zip yt yp))) / of_nat (length yt))),
      precision_recall_fscore_support = (\<lambda>yt yp. Inr (1 / 2, 1 / 2, 1 / 2)),
      classification_report = (\<lambda>yt yp. Inr [(''service'', 1), (''accuracy'', 0)])\<rparr>"

definition demo_gold :: "gold_item list" where
  "demo_gold =
     [\<lparr>g_text = Some ''Not bad'', g_label_aspect = Some ''other'', g_label_sentiment = None\<rparr>,
      \<lparr>g_text = Some ''Terrible support'', g_label_aspect = Some ''service'',
        g_label_sentiment = Some ''negative''\<rparr>]"

definition demo_metrics :: "nat metrics" where
  "demo_metrics =
     \<lparr>m_accuracy = 50, m_precision = 50, m_recall = 50, m_f1 = 50,
      m_aspect_breakdown = [(''service'', 1)],
      m_edge_case_stats =
        [\<lparr>e_type = ''Negation'', e_total = 1, e_accuracy = 100\<rparr>,
         \<lparr>e_type = ''Simple'', e_total = 1, e_accuracy = 0\<rparr>],
      m_details =
        [\<lparr>d_text = ''Not bad...'', d_tags = ''Negation'',
          d_true = ''other | neutral'', d_pred = ''other | neutral'',
          d_status = StatusMatch\<rparr>,
         \<lparr>d_text = ''Terrible support...'', d_tags = ''Simple'',
          d_true = ''service | negative'', d_pred = ''other | neutral'',
          d_status = StatusMismatch\<rparr>],
      m_consistency = Some 50\<rparr>"

section \<open>Properties of the batch analysis client\<close>

lemma analyze_review_batch_eq:
  "analyze_review_batch client s b =
     (Inr (reply_results (fst (client s (build_user_content b)))),
      snd (client s (build_user_content b)))"
  by (simp add: analyze_review_batch_def reply_results_def Let_def split: prod.splits sum.splits)

text \<open>
  Claim C5. Whatever the batch and the state of the model: when the call raises, when the
  first message carries a (non-empty) refusal, or when it carries no parsed response,
  \<^verbatim>\<open>analyze_review_batch\<close> returns the empty list; and in every case it returns a list
  rather than raising.
\<close>

theorem C5_analyze_review_batch_swallows_failures:
  "(\<exists>rs. fst (analyze_review_batch client s b) = Inr rs)
   \<and> ((\<exists>e. fst (client s (build_user_content b)) = Inl e)
        \<longrightarrow> fst (analyze_review_batch client s b) = Inr [])
   \<and> ((\<exists>c m ms. fst (client s (build_user_content b)) = Inr c \<and> choices c = m # ms
          \<and> (truthy_str (refusal m) \<or> parsed m = None))
        \<longrightarrow> fst (analyze_review_batch client s b) = Inr [])
   \<and> ((\<exists>c. fst (client s (build_user_content b)) = Inr c \<and> choices c = [])
        \<longrightarrow> fst (analyze_review_batch client s b) = Inr [])"
  by (auto simp: analyze_review_batch_eq reply_results_def analyze_try_body_def)

theorem C5_analyze_review_batch_witness:
  "fst (demo_llm 0 (build_user_content [])) = Inl (LibError ''timeout'')
   \<and> fst (analyze_review_batch demo_llm 0 []) = Inr []
   \<and> truthy_str (refusal \<lparr>refusal = Some ''no'', parsed = None\<rparr>)
   \<and> fst (analyze_review_batch demo_llm 1 []) = Inr []
   \<and> fst (analyze_review_batch demo_llm 2 []) = Inr []
   \<and> fst (analyze_review_batch demo_llm 3 []) = Inr []"
  using C5_analyze_review_batch_swallows_failures [of demo_llm 0 "[]"]
        C5_analyze_review_batch_swallows_failures [of demo_llm 1 "[]"]
        C5_analyze_review_batch_swallows_failures [of demo_llm 2 "[]"]
        C5_analyze_review_batch_swallows_failures [of demo_llm 3 "[]"]
  by (simp add: demo_llm_def truthy_str_def)

section \<open>Properties of the orchestration loop\<close>

lemma prepare_batch_append:
  "prepare_batch (xs @ ys) = prepare_batch xs @ prepare_batch ys"
  by (induction xs rule: prepare_batch.induct) auto

lemma prepare_batch_mem:
  "item \<in> set (prepare_batch rows) \<longleftrightarrow>
     (item_id item, item_text item) \<in> set rows \<and> \<not> skip_text (item_text item)"
  by (induction rows rule: prepare_batch.induct) auto

lemma prepare_batch_concat:
  "prepare_batch (concat xss) = concat (map prepare_batch xss)"
  by (induction xss) (auto simp: prepare_batch_append)

lemma iloc_mem:
  assumes "(k, t) \<in> set (iloc df i e)" and "e \<le> length df"
  shows "\<exists>j. k = int j \<and> i \<le> j \<and> j < e \<and> t = df ! j"
proof -
  from assms obtain m where m: "m < e - i" "k = int (i + m)" "t = take (e - i) (drop i df) ! m"
    unfolding iloc_def by (auto simp: set_zip)
  with assms(2) have "t = df ! (i + m)" by simp
  with m show ?thesis by (intro exI[of _ "i + m"]) auto
qed

lemma iloc_mem_iff:
  assumes "e \<le> length df"
  shows "(int j, t) \<in> set (iloc df i e) \<longleftrightarrow> i \<le> j \<and> j < e \<and> t = df ! j"
proof
  assume "(int j, t) \<in> set (iloc df i e)"
  from iloc_mem[OF this assms] show "i \<le> j \<and> j < e \<and> t = df ! j" by auto
next
  assume a: "i \<le> j \<and> j < e \<and> t = df ! j"
  then have lt: "j - i < e - i" by arith
  have len: "length (iloc df i e) = e - i" using assms by (simp add: iloc_def)
  have "iloc df i e ! (j - i) = (map int [i ..< e] ! (j - i), take (e - i) (drop i df) ! (j - i))"
    unfolding iloc_def using lt assms by (intro nth_zip) auto
  also have "\<dots> = (int j, t)" using a lt assms by simp
  finally show "(int j, t) \<in> set (iloc df i e)" using lt len by (metis nth_mem)
qed

lemma iloc_append:
  assumes "i \<le> j" "j \<le> e" "e \<le> length df"
  shows "iloc df i j @ iloc df j e = iloc df i e"
proof -
  have u: "[i ..< e] = [i ..< j] @ [j ..< e]"
    using assms by (metis le_Suc_ex upt_add_eq_append)
  have t: "take (e - i) (drop i df) = take (j - i) (drop i df) @ take (e - j) (drop j df)"
  proof -
    have "e - i = (j - i) + (e - j)" using assms by simp
    then have "take (e - i) (drop i df) = take (j - i) (drop i df) @ take (e - j) (drop (j - i) (drop i df))"
      by (simp only: take_add)
    then show ?thesis using assms by simp
  qed
  have l: "length (map int [i ..< j]) = length (take (j - i) (drop i df))"
    using assms by simp
  show ?thesis
    unfolding iloc_def u t map_append using l by (simp only: zip_append)
qed

lemma iloc_empty: "iloc df i i = []"
  by (simp add: iloc_def)

lemma chunks_concat:
  assumes "0 < bs"
  shows "concat (map (\<lambda>i. iloc df i (min (i + bs) (length df))) (map (\<lambda>k. k * bs) [0 ..< m]))
         = iloc df 0 (min (m * bs) (length df))"
proof (induction m)
  case 0
  show ?case by (simp add: iloc_empty)
next
  case (Suc m)
  have "iloc df 0 (min (m * bs) (length df)) @ iloc df (m * bs) (min (m * bs + bs) (length df))
        = iloc df 0 (min (Suc m * bs) (length df))"
  proof (cases "m * bs \<le> length df")
    case True
    then have "min (m * bs) (length df) = m * bs" by simp
    moreover have "iloc df 0 (m * bs) @ iloc df (m * bs) (min (m * bs + bs) (length df))
        = iloc df 0 (min (m * bs + bs) (length df))"
      using True by (intro iloc_append) auto
    ultimately show ?thesis by (simp add: add.commute)
  next
    case False
    then have "min (m * bs) (length df) = length df" "min (m * bs + bs) (length df) = length df"
      "min (Suc m * bs) (length df) = length df" by auto
    moreover have "iloc df (m * bs) (length df) = []" using False by (simp add: iloc_def)
    ultimately show ?thesis by simp
  qed
  with Suc show ?case by simp
qed

lemma range_covers:
  assumes "0 < bs"
  shows "length df \<le> ((length df + bs - 1) div bs) * bs"
proof -
  have "length df + bs - 1 = (length df + bs - 1) div bs * bs + (length df + bs - 1) mod bs"
    by simp
  moreover have "(length df + bs - 1) mod bs < bs" using assms by simp
  ultimately show ?thesis by linarith
qed

lemma py_range_chunks:
  assumes "py_range (length df) batch_size = Inr idxs" and "0 < batch_size"
  shows "concat (map (\<lambda>i. iloc df i (min (i + nat batch_size) (length df))) idxs) = table_rows df"
proof -
  let ?bs = "nat batch_size"
  have bs: "0 < ?bs" using assms(2) by simp
  have idxs: "idxs = map (\<lambda>k. k * ?bs) [0 ..< (length df + ?bs - 1) div ?bs]"
    using assms by (simp add: py_range_def)
  have "min ((length df + ?bs - 1) div ?bs * ?bs) (length df) = length df"
    using range_covers[OF bs, of df] by simp
  then show ?thesis
    unfolding idxs table_rows_def using chunks_concat[OF bs, of df "(length df + ?bs - 1) div ?bs"]
    by simp
qed

lemma batch_loop_log:
  assumes "batch_loop client df bs idxs st = Inr st'"
  shows "\<exists>L. call_log st' = call_log st @ L
           \<and> analyzed_data st' = analyzed_data st @ concat (map (\<lambda>(b, rs). map_results_back rs b) L)
           \<and> map fst L = filter (\<lambda>b. b \<noteq> [])
                (map (\<lambda>i. prepare_batch (iloc df i (min (i + bs) (length df)))) idxs)"
  using assms
proof (induction idxs arbitrary: st)
  case Nil
  then show ?case by simp
next
  case (Cons i rest)
  let ?b = "prepare_batch (iloc df i (min (i + bs) (length df)))"
  show ?case
  proof (cases "?b = []")
    case True
    with Cons.prems have "batch_loop client df bs rest st = Inr st'" by (simp add: Let_def)
    from Cons.IH[OF this] True show ?thesis by simp
  next
    case False
    let ?rs = "reply_results (fst (client (llm_state st) (build_user_content ?b)))"
    let ?st = "st\<lparr>llm_state := snd (client (llm_state st) (build_user_content ?b)),
                   call_log := call_log st @ [(?b, ?rs)],
                   analyzed_data := analyzed_data st @ map_results_back ?rs ?b\<rparr>"
    from Cons.prems False have "batch_loop client df bs rest ?st = Inr st'"
      by (simp add: Let_def analyze_review_batch_eq)
    from Cons.IH[OF this] obtain L where L: "call_log st' = call_log ?st @ L"
      "analyzed_data st' = analyzed_data ?st @ concat (map (\<lambda>(b, rs). map_results_back rs b) L)"
      "map fst L = filter (\<lambda>b. b \<noteq> [])
                (map (\<lambda>i. prepare_batch (iloc df i (min (i + bs) (length df)))) rest)"
      by blast
    show ?thesis
      using L False by (intro exI[of _ "(?b, ?rs) # L"]) simp
  qed
qed

lemma batch_loop_total: "\<exists>st'. batch_loop client df bs idxs st = Inr st'"
proof (induction idxs arbitrary: st)
  case Nil
  show ?case by simp
next
  case (Cons i rest)
  show ?case using Cons.IH by (simp add: Let_def analyze_review_batch_eq)
qed

lemma concat_filter_nonempty: "concat (filter (\<lambda>b. b \<noteq> []) xs) = concat xs"
  by (induction xs) auto

lemma process_rows:
  assumes "process_excel_file client s df batch_size = Inr st"
  shows "analyzed_data st = concat (map (\<lambda>(b, rs). map_results_back rs b) (call_log st))"
proof -
  from assms obtain idxs where
    run: "batch_loop client df (nat batch_size) idxs
            \<lparr>llm_state = s, call_log = [], analyzed_data = []\<rparr> = Inr st"
    by (auto simp: process_excel_file_def split: sum.splits)
  from batch_loop_log[OF run] show ?thesis by auto
qed

lemma process_batches:
  assumes "process_excel_file client s df batch_size = Inr st"
    and "(b, rs) \<in> set (call_log st)"
  shows "b \<noteq> [] \<and> (\<exists>i. b = prepare_batch (iloc df i (min (i + nat batch_size) (length df))))"
proof -
  from assms obtain idxs where
    run: "batch_loop client df (nat batch_size) idxs
            \<lparr>llm_state = s, call_log = [], analyzed_data = []\<rparr> = Inr st"
    by (auto simp: process_excel_file_def split: sum.splits)
  from batch_loop_log[OF run] have
    "map fst (call_log st) = filter (\<lambda>b. b \<noteq> [])
       (map (\<lambda>i. prepare_batch (iloc df i (min (i + nat batch_size) (length df)))) idxs)"
    by auto
  moreover from assms(2) have "b \<in> set (map fst (call_log st))" by force
  ultimately show ?thesis by auto
qed

lemma process_sent:
  assumes "process_excel_file client s df batch_size = Inr st" and "0 < batch_size"
  shows "concat (map fst (call_log st)) = prepare_batch (table_rows df)"
proof -
  from assms obtain idxs where rng: "py_range (length df) batch_size = Inr idxs" and
    run: "batch_loop client df (nat batch_size) idxs
            \<lparr>llm_state = s, call_log = [], analyzed_data = []\<rparr> = Inr st"
    by (auto simp: process_excel_file_def split: sum.splits)
  from batch_loop_log[OF run] have
    "map fst (call_log st) = filter (\<lambda>b. b \<noteq> [])
       (map (\<lambda>i. prepare_batch (iloc df i (min (i + nat batch_size) (length df)))) idxs)"
    by auto
  then have "concat (map fst (call_log st))
      = concat (map prepare_batch (map (\<lambda>i. iloc df i (min (i + nat batch_size) (length df))) idxs))"
    by (simp add: concat_filter_nonempty comp_def)
  also have "\<dots> = prepare_batch (table_rows df)"
    using py_range_chunks[OF rng assms(2)] by (simp only: prepare_batch_concat[symmetric])
  finally show ?thesis .
qed

lemma process_total:
  assumes "batch_size \<noteq> 0"
  shows "\<exists>st. process_excel_file client s df batch_size = Inr st"
  using assms batch_loop_total[of client df "nat batch_size"]
  by (auto simp: process_excel_file_def py_range_def)

lemma sent_item_row:
  assumes "item \<in> set (prepare_batch (iloc df i e))" and "e \<le> length df"
  shows "\<exists>j. item_id item = int j \<and> j < length df \<and> item_text item = df ! j
     \<and> \<not> skip_text (df ! j)"
proof -
  from assms(1) have m: "(item_id item, item_text item) \<in> set (iloc df i e)"
    and k: "\<not> skip_text (item_text item)"
    by (simp_all add: prepare_batch_mem)
  from iloc_mem[OF m assms(2)] k assms(2) show ?thesis by auto
qed

lemma kept_row_sent:
  assumes "i < length df" and "\<not> skip_text (df ! i)"
  shows "\<lparr>item_id = int i, item_text = df ! i\<rparr> \<in> set (prepare_batch (table_rows df))"
  using assms by (simp add: prepare_batch_mem table_rows_def iloc_mem_iff)

lemma results_map_snoc:
  "results_map (rs @ [r]) = (results_map rs)(rid r \<mapsto> insights r)"
  by (simp add: results_map_def)

lemma results_map_Nil: "results_map [] = Map.empty"
  by (simp add: results_map_def)

lemma results_map_None: "results_map rs k = None \<longleftrightarrow> k \<notin> rid ` set rs"
  by (induction rs rule: rev_induct) (auto simp: results_map_snoc results_map_Nil)

lemma results_map_filter:
  "results_map (filter (\<lambda>r. rid r \<in> S) rs) k = (if k \<in> S then results_map rs k else None)"
  by (induction rs rule: rev_induct) (auto simp: results_map_snoc results_map_Nil)

lemma rows_for_item_nonempty: "rows_for_item rm item \<noteq> []"
  by (simp add: rows_for_item_def Let_def)

lemma rows_for_item_text: "r \<in> set (rows_for_item rm item) \<Longrightarrow> original_text r = item_text item"
  by (auto simp: rows_for_item_def Let_def placeholder_row_def insight_row_def split: if_splits)

lemma in_concat_split:
  assumes "x \<in> set xs"
  shows "\<exists>pre post. concat (map f xs) = pre @ f x @ post"
proof -
  from assms obtain ys zs where "xs = ys @ x # zs" by (auto simp: in_set_conv_decomp)
  then have "concat (map f xs) = concat (map f ys) @ f x @ concat (map f zs)" by simp
  then show ?thesis by blast
qed

text \<open>
  Claim C10. A result whose id was not among the ids sent in the batch contributes no row:
  the rows a batch adds are the same when every such result is removed from what the
  client returned, and so is the table of a whole run.
\<close>

theorem C10_unknown_ids_ignored:
  "map_results_back batch_results batch_input
     = map_results_back (filter (\<lambda>res. rid res \<in> item_id ` set batch_input) batch_results) batch_input
   \<and> (process_excel_file client s df batch_size = Inr st \<longrightarrow>
        analyzed_data st = concat (map (\<lambda>(b, rs).
           map_results_back (filter (\<lambda>res. rid res \<in> item_id ` set b) rs) b) (call_log st)))"
proof -
  have a: "map_results_back rs b = map_results_back (filter (\<lambda>res. rid res \<in> item_id ` set b) rs) b"
    for rs b
    unfolding map_results_back_def
    by (intro arg_cong[where f = concat] map_cong refl)
       (simp add: rows_for_item_def results_map_filter)
  show ?thesis using a[symmetric] by (auto dest!: process_rows)
qed

text \<open>
  Claim C3. A row whose text is shorter than 5 characters, or is \<^verbatim>\<open>nan\<close> in any letter case,
  is in no batch sent to the client, and every row of the output table is emitted for an
  item that was sent, hence none for that row.
\<close>

theorem C3_skipped_row_not_sent:
  assumes "process_excel_file client s df batch_size = Inr st"
    and "i < length df"
    and "length (df ! i) < 5 \<or> lower (df ! i) = ''nan''"
  shows "(\<forall>(b, rs) \<in> set (call_log st). \<forall>item \<in> set b. item_id item \<noteq> int i)
       \<and> analyzed_data st = concat (map (\<lambda>(b, rs).
            concat (map (rows_for_item (results_map rs)) b)) (call_log st))"
proof -
  have "item_id item \<noteq> int i" if "(b, rs) \<in> set (call_log st)" "item \<in> set b" for b rs item
  proof -
    from process_batches[OF assms(1) that(1)] obtain j
      where b: "b = prepare_batch (iloc df j (min (j + nat batch_size) (length df)))" by blast
    from sent_item_row[of item df j "min (j + nat batch_size) (length df)"] that(2) b
    obtain k where "item_id item = int k" "\<not> skip_text (df ! k)" by auto
    with assms(3) show ?thesis by (auto simp: skip_text_def)
  qed
  moreover have "analyzed_data st = concat (map (\<lambda>(b, rs).
            concat (map (rows_for_item (results_map rs)) b)) (call_log st))"
    using process_rows[OF assms(1)] by (simp add: map_results_back_def)
  ultimately show ?thesis by blast
qed

text \<open>
  Claim C1. For a positive batch size, a row whose text survives the filter is sent to the
  client in some batch and its rows are part of the output table: never none; the single
  placeholder row when the results omit its id or map it to the empty list; otherwise one
  row per insight, in the order received.
\<close>

theorem C1_kept_row_emits_rows:
  assumes "0 < batch_size"
    and "i < length df"
    and "5 \<le> length (df ! i)" and "lower (df ! i) \<noteq> ''nan''"
  shows "\<exists>st b rs pre post.
      process_excel_file client s df batch_size = Inr st
    \<and> (b, rs) \<in> set (call_log st)
    \<and> \<lparr>item_id = int i, item_text = df ! i\<rparr> \<in> set b
    \<and> analyzed_data st
        = pre @ rows_for_item (results_map rs) \<lparr>item_id = int i, item_text = df ! i\<rparr> @ post
    \<and> rows_for_item (results_map rs) \<lparr>item_id = int i, item_text = df ! i\<rparr> \<noteq> []
    \<and> (int i \<notin> rid ` set rs \<or> results_map rs (int i) = Some [] \<longrightarrow>
         rows_for_item (results_map rs) \<lparr>item_id = int i, item_text = df ! i\<rparr>
           = [\<lparr>original_text = df ! i, row_aspect = ''other'', row_sentiment = ''neutral'',
               row_evidence = [], row_rationale = ''No insight detected (or skipped by LLM)''\<rparr>])
    \<and> (\<forall>ins. results_map rs (int i) = Some ins \<and> ins \<noteq> [] \<longrightarrow>
         rows_for_item (results_map rs) \<lparr>item_id = int i, item_text = df ! i\<rparr>
           = map (\<lambda>insight. \<lparr>original_text = df ! i, row_aspect = aspect insight,
                     row_sentiment = sentiment insight, row_evidence = evidence insight,
                     row_rationale = rationale insight\<rparr>) ins)"
proof -
  let ?item = "\<lparr>item_id = int i, item_text = df ! i\<rparr>"
  from process_total[of batch_size client s df] assms(1) obtain st
    where st: "process_excel_file client s df batch_size = Inr st" by auto
  have "\<not> skip_text (df ! i)" using assms(3,4) by (simp add: skip_text_def)
  from kept_row_sent[OF assms(2) this] process_sent[OF st assms(1)]
  have "?item \<in> set (concat (map fst (call_log st)))" by simp
  then obtain b rs where brs: "(b, rs) \<in> set (call_log st)" "?item \<in> set b" by auto
  from in_concat_split[OF brs(1), of "\<lambda>(b, rs). map_results_back rs b"] process_rows[OF st]
  obtain p1 q1 where 1: "analyzed_data st = p1 @ map_results_back rs b @ q1" by auto
  from in_concat_split[OF brs(2), of "rows_for_item (results_map rs)"]
  obtain p2 q2 where 2: "map_results_back rs b = p2 @ rows_for_item (results_map rs) ?item @ q2"
    by (auto simp: map_results_back_def)
  have 3: "analyzed_data st = (p1 @ p2) @ rows_for_item (results_map rs) ?item @ (q2 @ q1)"
    using 1 2 by simp
  have 4: "int i \<notin> rid ` set rs \<or> results_map rs (int i) = Some [] \<longrightarrow>
         rows_for_item (results_map rs) ?item
           = [\<lparr>original_text = df ! i, row_aspect = ''other'', row_sentiment = ''neutral'',
               row_evidence = [], row_rationale = ''No insight detected (or skipped by LLM)''\<rparr>]"
    using results_map_None[of rs "int i"]
    by (auto simp: rows_for_item_def placeholder_row_def)
  have 5: "\<forall>ins. results_map rs (int i) = Some ins \<and> ins \<noteq> [] \<longrightarrow>
         rows_for_item (results_map rs) ?item
           = map (\<lambda>insight. \<lparr>original_text = df ! i, row_aspect = aspect insight,
                     row_sentiment = sentiment insight, row_evidence = evidence insight,
                     row_rationale = rationale insight\<rparr>) ins"
    by (auto simp: rows_for_item_def insight_row_def)
  show ?thesis
    using st brs 3 4 5 rows_for_item_nonempty[of "results_map rs" ?item] by blast
qed

lemma demo_run: "process_excel_file demo_llm 4 demo_df 2 = Inr demo_final"
  by code_simp

lemma process_chunks:
  assumes "process_excel_file client s df batch_size = Inr st"
  shows "\<exists>idxs. py_range (length df) batch_size = Inr idxs
     \<and> map fst (call_log st) = filter (\<lambda>b. b \<noteq> [])
         (map (\<lambda>i. prepare_batch (iloc df i (min (i + nat batch_size) (length df)))) idxs)"
proof -
  from assms obtain idxs where rng: "py_range (length df) batch_size = Inr idxs" and
    run: "batch_loop client df (nat batch_size) idxs
            \<lparr>llm_state = s, call_log = [], analyzed_data = []\<rparr> = Inr st"
    by (auto simp: process_excel_file_def split: sum.splits)
  from batch_loop_log[OF run] rng show ?thesis by auto
qed

lemma process_row_blocks:
  assumes "process_excel_file client s df batch_size = Inr st"
  shows "analyzed_data st = concat (row_blocks st)"
proof -
  have "concat (map (\<lambda>(b, rs). map_results_back rs b) L)
      = concat (concat (map (\<lambda>(b, rs). map (rows_for_item (results_map rs)) b) L))" for L
    by (induction L) (auto simp: map_results_back_def)
  with process_rows[OF assms] show ?thesis by (simp add: row_blocks_def)
qed

lemma row_blocks_items: "list_all2 block_of_item (row_blocks st) (sent_items st)"
proof -
  have one: "list_all2 block_of_item (map (rows_for_item rm) b) b" for rm b
    by (induction b)
       (auto simp: block_of_item_def rows_for_item_nonempty list_all_iff rows_for_item_text)
  have "list_all2 block_of_item
          (concat (map (\<lambda>(b, rs). map (rows_for_item (results_map rs)) b) L))
          (concat (map fst L))" for L :: "(batch_item list \<times> review_result list) list"
    by (induction L) (auto intro!: list_all2_appendI one)
  then show ?thesis by (simp add: row_blocks_def sent_items_def)
qed

lemma prepare_batch_sorted:
  "sorted_wrt (<) (map fst rows) \<Longrightarrow> sorted_wrt (<) (map item_id (prepare_batch rows))"
proof (induction rows rule: prepare_batch.induct)
  case 1
  show ?case by simp
next
  case (2 idx t rest)
  have "idx < item_id item" if "item \<in> set (prepare_batch rest)" for item
    using that "2.prems" by (force simp: prepare_batch_mem)
  with 2 show ?case by auto
qed

lemma table_rows_sorted: "sorted_wrt (<) (map fst (table_rows df))"
proof -
  have "map fst (table_rows df) = map int [0 ..< length df]"
    by (simp add: table_rows_def iloc_def)
  moreover have "sorted_wrt (<) (map int [0 ..< length df])"
    by (simp add: sorted_wrt_map)
  ultimately show ?thesis by simp
qed

text \<open>
  Claim C4. For chunk size 1 and for any positive chunk size \<open>n\<close> the run returns a table;
  the items sent, read in chunk order and in row order within the chunk, are the kept
  rows in their original order (strictly increasing row index); the table is the
  concatenation of one non-empty block of rows per sent item, in that same order, each
  block carrying the text of its row and listing the insights in the order received.
  The calls of the run of size \<open>n\<close> follow the chunks of \<^verbatim>\<open>range(0, total_rows, n)\<close>.
\<close>

theorem C4_row_order_preserved:
  assumes "0 < n"
  shows "\<exists>st1 stN idxs.
      process_excel_file client s1 df 1 = Inr st1
    \<and> process_excel_file client sN df n = Inr stN
    \<and> sent_items st1 = prepare_batch (table_rows df)
    \<and> sent_items stN = prepare_batch (table_rows df)
    \<and> analyzed_data st1 = concat (row_blocks st1)
    \<and> analyzed_data stN = concat (row_blocks stN)
    \<and> list_all2 block_of_item (row_blocks st1) (prepare_batch (table_rows df))
    \<and> list_all2 block_of_item (row_blocks stN) (prepare_batch (table_rows df))
    \<and> sorted_wrt (<) (map item_id (prepare_batch (table_rows df)))
    \<and> py_range (length df) n = Inr idxs
    \<and> map fst (call_log stN) = filter (\<lambda>b. b \<noteq> [])
         (map (\<lambda>i. prepare_batch (iloc df i (min (i + nat n) (length df)))) idxs)"
proof -
  from process_total[of 1 client s1 df] obtain st1
    where st1: "process_excel_file client s1 df 1 = Inr st1" by auto
  from process_total[of n client sN df] assms obtain stN
    where stN: "process_excel_file client sN df n = Inr stN" by auto
  have s1: "sent_items st1 = prepare_batch (table_rows df)"
    using process_sent[OF st1] by (simp add: sent_items_def)
  have sN: "sent_items stN = prepare_batch (table_rows df)"
    using process_sent[OF stN assms] by (simp add: sent_items_def)
  from process_chunks[OF stN] obtain idxs where idxs: "py_range (length df) n = Inr idxs"
    "map fst (call_log stN) = filter (\<lambda>b. b \<noteq> [])
         (map (\<lambda>i. prepare_batch (iloc df i (min (i + nat n) (length df)))) idxs)"
    by blast
  show ?thesis
    using st1 stN s1 sN idxs process_row_blocks[OF st1] process_row_blocks[OF stN]
      row_blocks_items[of st1] row_blocks_items[of stN]
      prepare_batch_sorted[OF table_rows_sorted, of df]
    by (intro exI[of _ st1] exI[of _ stN] exI[of _ idxs]) simp
qed

theorem C4_row_order_preserved_witness:
  "(0::int) < 2 \<and> (\<exists>st1. process_excel_file demo_llm 0 demo_df 1 = Inr st1
      \<and> analyzed_data st1 = concat (row_blocks st1)
      \<and> analyzed_data demo_final = concat (row_blocks demo_final)
      \<and> list_all2 block_of_item (row_blocks st1) (prepare_batch (table_rows demo_df))
      \<and> list_all2 block_of_item (row_blocks demo_final) (prepare_batch (table_rows demo_df)))"
proof -
  have h: "(0::int) < 2" by simp
  from C4_row_order_preserved[OF h, of demo_llm 0 demo_df 4] show ?thesis
    by (auto simp: demo_run)
qed

theorem C1_kept_row_emits_rows_witness:
  "(0::int) < 2 \<and> (1::nat) < length demo_df \<and> 5 \<le> length (demo_df ! 1)
   \<and> lower (demo_df ! 1) \<noteq> ''nan''
   \<and> (\<exists>b rs pre post. (b, rs) \<in> set (call_log demo_final)
        \<and> analyzed_data demo_final
            = pre @ rows_for_item (results_map rs) \<lparr>item_id = 1, item_text = demo_df ! 1\<rparr> @ post)"
proof -
  have h1: "(0::int) < 2" by simp
  have h2: "(1::nat) < length demo_df" by (simp add: demo_df_def)
  have h3: "5 \<le> length (demo_df ! 1)" by (simp add: demo_df_def)
  have h4: "lower (demo_df ! 1) \<noteq> ''nan''" by (simp add: demo_df_def lower_def)
  from C1_kept_row_emits_rows[OF h1 h2 h3 h4, of demo_llm 4] have
    "\<exists>b rs pre post. (b, rs) \<in> set (call_log demo_final)
        \<and> analyzed_data demo_final
            = pre @ rows_for_item (results_map rs) \<lparr>item_id = int 1, item_text = demo_df ! 1\<rparr> @ post"
    unfolding demo_run by blast
  with h1 h2 h3 h4 show ?thesis by simp
qed

theorem C3_skipped_row_not_sent_witness:
  "process_excel_file demo_llm 4 demo_df 2 = Inr demo_final
   \<and> (2::nat) < length demo_df
   \<and> (length (demo_df ! 2) < 5 \<or> lower (demo_df ! 2) = ''nan'')
   \<and> 2 \<notin> set (map item_id (sent_items demo_final))"
proof -
  have h2: "(2::nat) < length demo_df" by (simp add: demo_df_def)
  have h3: "length (demo_df ! 2) < 5 \<or> lower (demo_df ! 2) = ''nan''" by (simp add: demo_df_def)
  from C3_skipped_row_not_sent[OF demo_run h2 h3]
  have "2 \<notin> set (map item_id (sent_items demo_final))"
    by (auto simp: sent_items_def)
  with h2 h3 demo_run show ?thesis by simp
qed

theorem C10_unknown_ids_ignored_witness:
  "process_excel_file demo_llm 4 demo_df 2 = Inr demo_final
   \<and> analyzed_data demo_final = concat (map (\<lambda>(b, rs).
           map_results_back (filter (\<lambda>res. rid res \<in> item_id ` set b) rs) b) (call_log demo_final))
   \<and> filter (\<lambda>res. rid res \<in> {0, 1}) [\<lparr>rid = 1, insights = [demo_insight]\<rparr>, \<lparr>rid = 7, insights = [demo_insight]\<rparr>]
       = [\<lparr>rid = 1, insights = [demo_insight]\<rparr>]"
  using C10_unknown_ids_ignored[of _ _ demo_llm 4 demo_df 2 demo_final] demo_run by simp

section \<open>Properties of the dual-run comparison\<close>

lemma compare_loop_count:
  "fst (compare_loop df1 df2 [k ..< n] (c, st))
     = c + length (filter (\<lambda>i. same_label (df1 ! i) (df2 ! i)) [k ..< min n (length df2)])"
proof (induction "n - k" arbitrary: k c st)
  case 0
  then show ?case by simp
next
  case (Suc d)
  then have kn: "k < n" and d: "d = n - Suc k" by auto
  have u: "[k ..< n] = k # [Suc k ..< n]" using kn by (simp add: upt_conv_Cons)
  show ?case
  proof (cases "k \<ge> length df2")
    case True
    then show ?thesis by (simp add: u)
  next
    case False
    then have v: "[k ..< min n (length df2)] = k # [Suc k ..< min n (length df2)]"
      using kn by (simp add: upt_conv_Cons)
    show ?thesis using False Suc.hyps(1)[OF d] by (simp add: u v Let_def)
  qed
qed

lemma compare_loop_length:
  "length (snd (compare_loop df1 df2 idxs (c, st))) = length st"
  by (induction df1 df2 idxs "(c, st)" arbitrary: c st rule: compare_loop.induct)
     (auto simp: Let_def)

lemma compare_loop_status:
  assumes "i < length st"
  shows "snd (compare_loop df1 df2 [k ..< n] (c, st)) ! i
     = (if k \<le> i \<and> i < min n (length df2) then expected_status df1 df2 i else st ! i)"
  using assms
proof (induction "n - k" arbitrary: k c st)
  case 0
  then show ?case by auto
next
  case (Suc d)
  then have kn: "k < n" and d: "d = n - Suc k" by auto
  have u: "[k ..< n] = k # [Suc k ..< n]" using kn by (simp add: upt_conv_Cons)
  show ?case
  proof (cases "k \<ge> length df2")
    case True
    then show ?thesis by (auto simp: u)
  next
    case False
    let ?v = "if same_label (df1 ! k) (df2 ! k) then Verified
              else Mismatch (row_aspect (df2 ! k)) (row_sentiment (df2 ! k))"
    have e: "expected_status df1 df2 k = ?v" using False by (simp add: expected_status_def)
    have len: "i < length (st[k := ?v])" using Suc.prems by simp
    have "snd (compare_loop df1 df2 [k ..< n] (c, st)) ! i
        = snd (compare_loop df1 df2 [Suc k ..< n]
                 (if same_label (df1 ! k) (df2 ! k) then c + 1 else c, st[k := ?v])) ! i"
      using False by (simp add: u Let_def)
    also have "\<dots> = (if Suc k \<le> i \<and> i < min n (length df2) then expected_status df1 df2 i
                      else st[k := ?v] ! i)"
      by (rule Suc.hyps(1)[OF d len])
    also have "\<dots> = (if k \<le> i \<and> i < min n (length df2) then expected_status df1 df2 i else st ! i)"
      using False kn Suc.prems e by (cases "i = k") (auto simp del: expected_status_def)
    finally show ?thesis .
  qed
qed

lemma compare_and_merge_runs_eq:
  "compare_and_merge_runs df1 df2
     = (zip df1 (map (expected_status df1 df2) [0 ..< length df1]),
        run_score (matching_pairs df1 df2) (length df1))"
proof -
  let ?res = "compare_loop df1 df2 [0 ..< length df1] (0, replicate (length df1) Pending)"
  have c: "fst ?res = matching_pairs df1 df2"
    by (simp add: compare_loop_count matching_pairs_def)
  have "snd ?res = map (expected_status df1 df2) [0 ..< length df1]"
  proof (rule nth_equalityI)
    show "length (snd ?res) = length (map (expected_status df1 df2) [0 ..< length df1])"
      by (simp add: compare_loop_length)
  next
    fix i assume "i < length (snd ?res)"
    then have i: "i < length df1" by (simp add: compare_loop_length)
    then show "snd ?res ! i = map (expected_status df1 df2) [0 ..< length df1] ! i"
      by (simp add: compare_loop_status expected_status_def)
  qed
  with c show ?thesis
    by (cases ?res) (simp add: compare_and_merge_runs_def Let_def)
qed

lemma matching_pairs_all:
  assumes "list_all2 same_label df1 df2"
  shows "matching_pairs df1 df2 = length df1"
proof -
  from assms have len: "length df1 = length df2"
    and all: "\<And>i. i < length df1 \<Longrightarrow> same_label (df1 ! i) (df2 ! i)"
    by (auto simp: list_all2_conv_all_nth)
  have "filter (\<lambda>i. same_label (df1 ! i) (df2 ! i)) [0 ..< length df1] = [0 ..< length df1]"
    using all by (intro filter_True) auto
  then show ?thesis using len by (simp add: matching_pairs_def)
qed

lemma matching_pairs_none:
  assumes "list_all (\<lambda>(r1, r2). \<not> same_label r1 r2) (zip df1 df2)"
  shows "matching_pairs df1 df2 = 0"
proof -
  have "\<not> same_label (df1 ! i) (df2 ! i)" if "i < min (length df1) (length df2)" for i
  proof -
    from that have "(df1 ! i, df2 ! i) \<in> set (zip df1 df2)"
      by (auto simp: set_zip)
    with assms show ?thesis by (auto simp: list_all_iff)
  qed
  then have "filter (\<lambda>i. same_label (df1 ! i) (df2 ! i)) [0 ..< min (length df1) (length df2)] = []"
    by (auto simp: filter_empty_conv)
  then show ?thesis by (simp add: matching_pairs_def)
qed

lemma count_all_but_one:
  "length (filter (\<lambda>i. i \<noteq> k) [0 ..< n]) = (if k < n then n - 1 else n)"
  by (induction n) auto

lemma matching_pairs_one_differs:
  assumes "k < length df" and "a \<noteq> row_aspect (df ! k)"
  shows "matching_pairs df (df[k := (df ! k)\<lparr>row_aspect := a\<rparr>]) = length df - 1"
proof -
  have "filter (\<lambda>i. same_label (df ! i) (df[k := (df ! k)\<lparr>row_aspect := a\<rparr>] ! i)) [0 ..< length df]
      = filter (\<lambda>i. i \<noteq> k) [0 ..< length df]"
    using assms by (intro filter_cong refl) (auto simp: same_label_def nth_list_update)
  then show ?thesis using assms(1)
    by (simp add: matching_pairs_def count_all_but_one)
qed



text \<open>
  Claim C7. Two non-empty runs that agree row by row on aspect and sentiment score 100, in
  particular a run of five rows against itself; five rows against the same rows with the
  aspect of one row changed score 80; runs whose aligned pairs all differ score 0; and
  the score is 0, with no division by zero, when either run is empty.
\<close>

theorem C7_score_extremes:
  "(df1 \<noteq> [] \<and> list_all2 same_label df1 df2 \<longrightarrow> snd (compare_and_merge_runs df1 df2) = 100)
   \<and> (length df = 5 \<longrightarrow> snd (compare_and_merge_runs df df) = 100)
   \<and> (length df = 5 \<and> k < 5 \<and> a \<noteq> row_aspect (df ! k) \<longrightarrow>
        snd (compare_and_merge_runs df (df[k := (df ! k)\<lparr>row_aspect := a\<rparr>])) = 80)
   \<and> (list_all (\<lambda>(r1, r2). \<not> same_label r1 r2) (zip df1 df2) \<longrightarrow>
        snd (compare_and_merge_runs df1 df2) = 0)
   \<and> snd (compare_and_merge_runs [] df2) = 0
   \<and> snd (compare_and_merge_runs df1 []) = 0"
proof -
  have a: "snd (compare_and_merge_runs df1 df2) = 100"
    if "df1 \<noteq> []" "list_all2 same_label df1 df2"
    using that by (simp add: compare_and_merge_runs_eq run_score_def matching_pairs_all)
  have "list_all2 same_label df df"
    by (simp add: list_all2_conv_all_nth same_label_def)
  then have b: "snd (compare_and_merge_runs df df) = 100" if "length df = 5"
    using that by (simp add: compare_and_merge_runs_eq run_score_def matching_pairs_all)
  have c: "snd (compare_and_merge_runs df (df[k := (df ! k)\<lparr>row_aspect := a\<rparr>])) = 80"
    if "length df = 5" "k < 5" "a \<noteq> row_aspect (df ! k)"
    using that by (simp add: compare_and_merge_runs_eq run_score_def matching_pairs_one_differs)
  have d: "snd (compare_and_merge_runs df1 df2) = 0"
    if "list_all (\<lambda>(r1, r2). \<not> same_label r1 r2) (zip df1 df2)"
    using that by (simp add: compare_and_merge_runs_eq run_score_def matching_pairs_none)
  have e: "snd (compare_and_merge_runs [] df2) = 0"
    by (simp add: compare_and_merge_runs_eq run_score_def)
  have f: "snd (compare_and_merge_runs df1 []) = 0"
    by (simp add: compare_and_merge_runs_eq run_score_def matching_pairs_def)
  from a b c d e f show ?thesis by blast
qed

theorem C7_score_extremes_witness:
  "five_rows \<noteq> [] \<and> list_all2 same_label five_rows five_rows
   \<and> snd (compare_and_merge_runs five_rows five_rows) = 100
   \<and> length five_rows = 5 \<and> (2::nat) < 5 \<and> ''price_value'' \<noteq> row_aspect (five_rows ! 2)
   \<and> snd (compare_and_merge_runs five_rows
             (five_rows[2 := (five_rows ! 2)\<lparr>row_aspect := ''price_value''\<rparr>])) = 80
   \<and> list_all (\<lambda>(r1, r2). \<not> same_label r1 r2) (zip [row_a, row_b] [row_b, row_a])
   \<and> snd (compare_and_merge_runs [row_a, row_b] [row_b, row_a]) = 0"
proof -
  have h1: "five_rows \<noteq> []" by (simp add: five_rows_def)
  have h2: "list_all2 same_label five_rows five_rows"
    by (simp add: five_rows_def same_label_def)
  have h3: "length five_rows = 5" by (simp add: five_rows_def)
  have h4: "''price_value'' \<noteq> row_aspect (five_rows ! 2)"
    by (simp add: five_rows_def row_a_def insight_row_def demo_insight_def)
  have h5: "list_all (\<lambda>(r1, r2). \<not> same_label r1 r2) (zip [row_a, row_b] [row_b, row_a])"
    by (simp add: same_label_def row_a_def row_b_def insight_row_def placeholder_row_def
        demo_insight_def)
  from C7_score_extremes [of five_rows five_rows five_rows 2 "''price_value''"]
       C7_score_extremes [of "[row_a, row_b]" "[row_b, row_a]"]
       h1 h2 h3 h4 h5
  show ?thesis by simp
qed

section \<open>Properties of the complexity tagger\<close>









section \<open>Properties of the validation harness\<close>

lemma predictions_loop_total:
  "\<exists>p s'. predictions_loop client batch_input idxs pm s = (Inr p, s')"
proof (induction idxs arbitrary: pm s)
  case Nil
  show ?case by simp
next
  case (Cons i rest)
  show ?case using Cons.IH by (simp add: Let_def analyze_review_batch_eq)
qed

lemma get_predictions_total:
  "\<exists>p s'. get_predictions client s batch_input = (Inr p, s')"
  using predictions_loop_total[of client batch_input _ Map.empty s]
  by (simp add: get_predictions_def py_range_def BATCH_SIZE_def)


lemma prepare_data_snd:
  "snd (prepare_data rows (gtm, bi))
     = bi @ map (\<lambda>(idx, item). \<lparr>item_id = int idx, item_text = dict_get (g_text item) []\<rparr>) rows"
  by (induction rows "(gtm, bi)" arbitrary: gtm bi rule: prepare_data.induct)
     (simp_all add: Let_def)

lemma prepare_data_dom:
  "dom (fst (prepare_data rows (gtm, bi))) = dom gtm \<union> fst ` set rows"
  by (induction rows "(gtm, bi)" arbitrary: gtm bi rule: prepare_data.induct)
     (auto simp: Let_def)

lemma compare_lines_total:
  assumes "set idxs \<subseteq> dom gtm"
  shows "\<exists>st'. compare_lines gtm p idxs st = Inr st'"
  using assms
proof (induction idxs arbitrary: st)
  case Nil
  show ?case by simp
next
  case (Cons idx rest)
  then obtain t where "gtm idx = Some t" by auto
  with Cons show ?case by (simp add: Let_def split: prod.splits)
qed

lemma consistency_loop_count:
  "consistency_loop p1 p2 idxs c
     = c + length (filter (\<lambda>idx. first_pair (dict_get (p1 (int idx)) [])
                          = first_pair (dict_get (p2 (int idx)) [])) idxs)"
  by (induction idxs arbitrary: c) (simp_all add: Let_def)

lemma consistency_of_eq:
  "consistency_of r p1 p2 n
     = (if n > 0 then r (of_nat (agreeing_samples p1 p2 n) / of_nat n * 100) else 0)"
  by (simp add: consistency_of_def consistency_loop_count agreeing_samples_def)

lemma enumerate_fst_set: "fst ` set (enumerate k xs) = {k ..< k + length xs}"
proof -
  have "set (map fst (enumerate k xs)) = {k ..< k + length xs}"
    by (simp only: map_fst_enumerate set_upt)
  then show ?thesis by (simp only: set_map)
qed

lemma run_validation_eq:
  "\<exists>p1 s1 cs s2 st.
      get_predictions client s (gold_batch_input gold_data) = (Inr p1, s1)
    \<and> second_pass lib client s1 (gold_batch_input gold_data) p1 (length gold_data) dual_mode
         = (Inr cs, s2)
    \<and> compare_lines (fst (prepare_data (enumerate 0 gold_data) (Map.empty, []))) p1
         [0 ..< length gold_data] empty_compare_state = Inr st
    \<and> run_gold_standard_validation lib client s (Inr gold_data) dual_mode
         = (Inr (result_of (metrics_try_body lib st cs)), s2)"
proof -
  let ?pd = "prepare_data (enumerate 0 gold_data) (Map.empty, [])"
  have bi: "snd ?pd = gold_batch_input gold_data"
    by (simp add: prepare_data_snd gold_batch_input_def)
  obtain p1 s1 where p1: "get_predictions client s (gold_batch_input gold_data) = (Inr p1, s1)"
    using get_predictions_total[of client s "gold_batch_input gold_data"] by blast
  obtain cs s2 where cs:
    "second_pass lib client s1 (gold_batch_input gold_data) p1 (length gold_data) dual_mode
       = (Inr cs, s2)"
  proof (cases dual_mode)
    case True
    obtain p2 s2 where "get_predictions client s1 (gold_batch_input gold_data) = (Inr p2, s2)"
      using get_predictions_total[of client s1 "gold_batch_input gold_data"] by blast
    with True that show ?thesis by (simp add: second_pass_def)
  next
    case False
    with that show ?thesis by (simp add: second_pass_def)
  qed
  have "set [0 ..< length gold_data] \<subseteq> dom (fst ?pd)"
    by (simp add: prepare_data_dom enumerate_fst_set)
  from compare_lines_total[OF this] obtain st where
    st: "compare_lines (fst ?pd) p1 [0 ..< length gold_data] empty_compare_state = Inr st"
    by blast
  have "run_gold_standard_validation lib client s (Inr gold_data) dual_mode
         = (Inr (result_of (metrics_try_body lib st cs)), s2)"
    using p1 cs st bi
    by (cases ?pd)
       (simp add: run_gold_standard_validation_def result_of_def empty_compare_state_def
          split: sum.splits)
  with p1 cs st show ?thesis by blast
qed

lemma metrics_try_body_consistency:
  "metrics_try_body lib st cs = Inr m \<Longrightarrow> m_consistency m = cs"
  by (auto simp: metrics_try_body_def Let_def split: sum.splits prod.splits)

lemma metrics_try_body_cases:
  "(accuracy_score lib (y_true_aspect st) (y_pred_aspect st) = Inl msg
      \<longrightarrow> metrics_try_body lib st cs = Inl msg)
   \<and> (accuracy_score lib (y_true_aspect st) (y_pred_aspect st) = Inr a
      \<and> precision_recall_fscore_support lib (y_true_aspect st) (y_pred_aspect st) = Inl msg
      \<longrightarrow> metrics_try_body lib st cs = Inl msg)
   \<and> (accuracy_score lib (y_true_aspect st) (y_pred_aspect st) = Inr a
      \<and> precision_recall_fscore_support lib (y_true_aspect st) (y_pred_aspect st) = Inr t
      \<and> classification_report lib (y_true_aspect st) (y_pred_aspect st) = Inl msg
      \<longrightarrow> metrics_try_body lib st cs = Inl msg)
   \<and> (accuracy_score lib (y_true_aspect st) (y_pred_aspect st) = Inr a
      \<and> precision_recall_fscore_support lib (y_true_aspect st) (y_pred_aspect st) = Inr t
      \<and> classification_report lib (y_true_aspect st) (y_pred_aspect st) = Inr d
      \<longrightarrow> (\<exists>m. metrics_try_body lib st cs = Inr m))"
  by (auto simp: metrics_try_body_def Let_def split: sum.splits prod.splits)


text \<open>
  Claim C8. In dual mode the harness runs the whole gold set through the prediction
  pipeline twice, the second pass starting where the first left the model. Whenever it
  returns metrics, their consistency is the number of samples, indexed by position, whose
  first-insight (aspect, sentiment) pairs agree between the two passes (a sample without
  predicted insights counting as \<open>(none, none)\<close>), divided by the number of samples, times
  100, rounded to two decimals; and 0 for the empty gold set.
\<close>

theorem C8_dual_mode_consistency:
  assumes "run_gold_standard_validation lib client s (Inr gold_data) True
             = (Inr (MetricsResult m), s')"
  shows "\<exists>p1 s1 p2.
      get_predictions client s (gold_batch_input gold_data) = (Inr p1, s1)
    \<and> get_predictions client s1 (gold_batch_input gold_data) = (Inr p2, s')
    \<and> m_consistency m
        = Some (if length gold_data > 0
                then round2 lib (of_nat (agreeing_samples p1 p2 (length gold_data))
                                  / of_nat (length gold_data) * 100)
                else 0)"
proof -
  from run_validation_eq[of client s gold_data lib True] obtain p1 s1 cs s2 st where
    p1: "get_predictions client s (gold_batch_input gold_data) = (Inr p1, s1)" and
    sp: "second_pass lib client s1 (gold_batch_input gold_data) p1 (length gold_data) True
           = (Inr cs, s2)" and
    run: "run_gold_standard_validation lib client s (Inr gold_data) True
           = (Inr (result_of (metrics_try_body lib st cs)), s2)"
    by blast
  from run assms have s2: "s2 = s'" and res: "result_of (metrics_try_body lib st cs) = MetricsResult m"
    by simp_all
  from res have "metrics_try_body lib st cs = Inr m"
    by (simp add: result_of_def split: sum.splits)
  then have cs: "m_consistency m = cs" by (rule metrics_try_body_consistency)
  obtain p2 s2' where p2: "get_predictions client s1 (gold_batch_input gold_data) = (Inr p2, s2')"
    using get_predictions_total[of client s1 "gold_batch_input gold_data"] by blast
  with sp have "cs = Some (consistency_of (round2 lib) p1 p2 (length gold_data))" and "s2' = s2"
    by (simp_all add: second_pass_def)
  with p1 p2 cs s2 show ?thesis
    by (intro exI[of _ p1] exI[of _ s1] exI[of _ p2]) (simp add: consistency_of_eq)
qed


lemma demo_validation_run:
  "run_gold_standard_validation demo_lib demo_llm 3 (Inr demo_gold) True
     = (Inr (MetricsResult demo_metrics), 5)"
  by code_simp


theorem C8_dual_mode_consistency_witness:
  "run_gold_standard_validation demo_lib demo_llm 3 (Inr demo_gold) True
     = (Inr (MetricsResult demo_metrics), 5)
   \<and> m_consistency demo_metrics = Some 50
   \<and> (\<exists>p1 s1 p2.
        get_predictions demo_llm 3 (gold_batch_input demo_gold) = (Inr p1, s1)
      \<and> get_predictions demo_llm s1 (gold_batch_input demo_gold) = (Inr p2, 5)
      \<and> Some (50::rat) = Some (round2 demo_lib (of_nat (agreeing_samples p1 p2 2) / 2 * 100)))"
proof -
  have l: "length demo_gold = 2" by (simp add: demo_gold_def)
  have c: "m_consistency demo_metrics = Some 50" by (simp add: demo_metrics_def)
  from C8_dual_mode_consistency [OF demo_validation_run] show ?thesis
    unfolding l c using demo_validation_run by simp
qed


end
